theory Spec2Isabelle
  imports Main "HOL-Library.Sublist"
begin

section \<open>Text primitives used by the backend\<close>

text \<open>
  Questions, SQL statements and messages are Python \<open>str\<close> values: sequences of
  Unicode code points. A code point is a natural number and \<open>str\<close> turns a literal
  of the theory into such a sequence.
\<close>

type_synonym ustring = "nat list"

definition str :: "string \<Rightarrow> ustring" where
  "str s = map of_char s"

text \<open>
  \<^verbatim>\<open>str.lower()\<close>, \<^verbatim>\<open>str.upper()\<close> and \<^verbatim>\<open>str.strip()\<close> consult the
  interpreter's Unicode character database, which is not part of the repository. It
  is a parameter of the model: the full lower- and upper-case mapping of a code point
  (up to three code points), the properties Cased and Case_Ignorable, and the
  whitespace property. The tables are consulted from code point 128 on; on the ASCII
  range the values are written out.
\<close>

record ucd =
  to_lower :: "nat \<Rightarrow> nat list"
  to_upper :: "nat \<Rightarrow> nat list"
  is_cased :: "nat \<Rightarrow> bool"
  is_case_ignorable :: "nat \<Rightarrow> bool"
  is_whitespace :: "nat \<Rightarrow> bool"

definition ascii_lower :: "nat \<Rightarrow> nat" where
  "ascii_lower c = (if 65 \<le> c \<and> c \<le> 90 then c + 32 else c)"

definition ascii_upper :: "nat \<Rightarrow> nat" where
  "ascii_upper c = (if 97 \<le> c \<and> c \<le> 122 then c - 32 else c)"

definition lower_full :: "ucd \<Rightarrow> nat \<Rightarrow> nat list" where
  "lower_full u c = (if c < 128 then [ascii_lower c] else to_lower u c)"

definition upper_full :: "ucd \<Rightarrow> nat \<Rightarrow> nat list" where
  "upper_full u c = (if c < 128 then [ascii_upper c] else to_upper u c)"

definition cased :: "ucd \<Rightarrow> nat \<Rightarrow> bool" where
  "cased u c =
     (if c < 128 then (65 \<le> c \<and> c \<le> 90) \<or> (97 \<le> c \<and> c \<le> 122) else is_cased u c)"

text \<open>On the ASCII range: apostrophe, full stop, colon, circumflex and grave accent.\<close>

definition case_ignorable :: "ucd \<Rightarrow> nat \<Rightarrow> bool" where
  "case_ignorable u c =
     (if c < 128 then c = 39 \<or> c = 46 \<or> c = 58 \<or> c = 94 \<or> c = 96
      else is_case_ignorable u c)"

text \<open>
  The one context-dependent case of lower-casing: a capital sigma (931) becomes the
  final form 962 when, skipping case-ignorable code points, it is preceded by a cased
  one and not followed by a cased one, and 963 otherwise. \<open>left\<close> holds the code
  points to the left, nearest first; \<open>right\<close> those to the right.
\<close>

definition final_sigma :: "ucd \<Rightarrow> ustring \<Rightarrow> ustring \<Rightarrow> bool" where
  "final_sigma u left right =
     (case dropWhile (case_ignorable u) left of
        [] \<Rightarrow> False
      | c # _ \<Rightarrow>
          cased u c \<and>
          (case dropWhile (case_ignorable u) right of
             [] \<Rightarrow> True
           | d # _ \<Rightarrow> \<not> cased u d))"

fun lower_from :: "ucd \<Rightarrow> ustring \<Rightarrow> ustring \<Rightarrow> ustring" where
  "lower_from u left [] = []"
| "lower_from u left (c # cs) =
     (if c = 931 then [if final_sigma u left cs then 962 else 963] else lower_full u c)
     @ lower_from u (c # left) cs"

text \<open>\<^verbatim>\<open>str.lower()\<close> and \<^verbatim>\<open>str.upper()\<close>.\<close>

definition lower :: "ucd \<Rightarrow> ustring \<Rightarrow> ustring" where
  "lower u s = lower_from u [] s"

definition upper :: "ucd \<Rightarrow> ustring \<Rightarrow> ustring" where
  "upper u s = concat (map (upper_full u) s)"

text \<open>
  The code points \<^verbatim>\<open>str.strip()\<close> removes. On the ASCII range: tab, line feed,
  vertical tab, form feed, carriage return, the four separators 28 to 31, and the
  space.
\<close>

definition is_space :: "ucd \<Rightarrow> nat \<Rightarrow> bool" where
  "is_space u c =
     (if c < 128 then (9 \<le> c \<and> c \<le> 13) \<or> (28 \<le> c \<and> c \<le> 31) \<or> c = 32
      else is_whitespace u c)"

definition strip :: "ucd \<Rightarrow> ustring \<Rightarrow> ustring" where
  "strip u s = rev (dropWhile (is_space u) (rev (dropWhile (is_space u) s)))"

text \<open>
  Text within the ASCII range. On such text the operations above do not consult the
  tables.
\<close>

definition is_ascii :: "ustring \<Rightarrow> bool" where
  "is_ascii s = list_all (\<lambda>c. c < 128) s"

text \<open>\<^verbatim>\<open>sub in s\<close>: \<open>sub\<close> occurs in \<open>s\<close> as a contiguous block.\<close>

fun contains :: "ustring \<Rightarrow> ustring \<Rightarrow> bool" where
  "contains sub [] = (sub = [])"
| "contains sub (c # cs) = (prefix sub (c # cs) \<or> contains sub cs)"

text \<open>\<^verbatim>\<open>s.startswith(p)\<close>.\<close>

definition startswith :: "ustring \<Rightarrow> ustring \<Rightarrow> bool" where
  "startswith s p = prefix p s"

text \<open>
  An excerpt of the Unicode character database, for running the model: capital and
  small a with grave (192, 224), sharp s (223), capital I with dot above (304),
  dotless i (305), long s (383) and the combining dot above (775), with the
  whitespace code points outside ASCII.
\<close>

definition sample_ucd :: ucd where
  "sample_ucd =
     \<lparr>to_lower = (\<lambda>c. if c = 192 then [224] else if c = 304 then [105, 775] else [c]),
      to_upper = (\<lambda>c. if c = 224 then [192] else if c = 223 then [83, 83]
                      else if c = 305 then [73] else if c = 383 then [83] else [c]),
      is_cased = (\<lambda>c. c \<in> set [192, 223, 224, 304, 305, 383, 931, 962, 963]),
      is_case_ignorable = (\<lambda>c. c = 775),
      is_whitespace = (\<lambda>c. c = 133 \<or> c = 160 \<or> c = 5760 \<or> (8192 \<le> c \<and> c \<le> 8202)
                         \<or> c = 8232 \<or> c = 8233 \<or> c = 8239 \<or> c = 8287 \<or> c = 12288)\<rparr>"


section \<open>SQL generation: \<open>SQLCoderService.generate_sql\<close>\<close>

text \<open>
  The seven string literals returned by \<open>generate_sql\<close>, in the order of its
  branches. Python joins adjacent literals, which is written \<open>@\<close> here.
\<close>

definition sql_customers_mumbai :: ustring where
  "sql_customers_mumbai = str (
     ''SELECT c.first_name, c.last_name, c.city, SUM(o.total_amount) AS total_purchases '' @
     ''FROM customers c JOIN orders o ON c.customer_id = o.customer_id '' @
     ''WHERE c.city = 'Mumbai' GROUP BY c.customer_id;'')"

definition sql_total_revenue :: ustring where
  "sql_total_revenue = str (
     ''SELECT c.city, SUM(o.total_amount) AS total_revenue '' @
     ''FROM customers c JOIN orders o ON c.customer_id = o.customer_id '' @
     ''GROUP BY c.city ORDER BY total_revenue DESC;'')"

definition sql_all_customers :: ustring where
  "sql_all_customers = str ''SELECT * FROM customers ORDER BY registration_date DESC;''"

definition sql_orders_status :: ustring where
  "sql_orders_status = str ''SELECT order_id, customer_id, total_amount, status FROM orders;''"

definition sql_products :: ustring where
  "sql_products = str ''SELECT * FROM products ORDER BY price DESC;''"

definition sql_orders_count :: ustring where
  "sql_orders_count = str (
     ''SELECT c.customer_id, c.first_name, COUNT(o.order_id) AS order_count '' @
     ''FROM customers c LEFT JOIN orders o ON c.customer_id = o.customer_id '' @
     ''GROUP BY c.customer_id ORDER BY order_count DESC;'')"

definition sql_default :: ustring where
  "sql_default = str ''SELECT * FROM customers LIMIT 10;''"

definition generate_sql :: "ucd \<Rightarrow> ustring \<Rightarrow> ustring" where
  "generate_sql u question =
     (let q = lower u question
      in if contains (str ''customers'') q \<and> contains (str ''mumbai'') q
           then sql_customers_mumbai
         else if contains (str ''total revenue'') q then sql_total_revenue
         else if contains (str ''all customers'') q then sql_all_customers
         else if contains (str ''orders'') q \<and> contains (str ''status'') q
           then sql_orders_status
         else if contains (str ''products'') q then sql_products
         else if contains (str ''orders count'') q \<or> contains (str ''number of orders'') q
           then sql_orders_count
         else sql_default)"

text \<open>The closed set of statements the generator can return.\<close>

definition templates :: "ustring list" where
  "templates =
     [sql_customers_mumbai, sql_total_revenue, sql_all_customers, sql_orders_status,
      sql_products, sql_orders_count, sql_default]"


subsection \<open>The specification's view: an ordered rule table\<close>

text \<open>
  The specification describes the dispatch as an ordered list of pairs of a
  predicate over the normalised question and a template, closed by a default rule
  whose predicate is always true. \<open>keyword_rules\<close> lists the six guarded branches
  in declaration order; \<open>translate_by_table\<close> is the specification's translator,
  to be compared with \<open>generate_sql\<close>.
\<close>

type_synonym rule = "(ustring \<Rightarrow> bool) \<times> ustring"

definition keyword_rules :: "rule list" where
  "keyword_rules =
     [(\<lambda>q. contains (str ''customers'') q \<and> contains (str ''mumbai'') q, sql_customers_mumbai),
      (\<lambda>q. contains (str ''total revenue'') q, sql_total_revenue),
      (\<lambda>q. contains (str ''all customers'') q, sql_all_customers),
      (\<lambda>q. contains (str ''orders'') q \<and> contains (str ''status'') q, sql_orders_status),
      (\<lambda>q. contains (str ''products'') q, sql_products),
      (\<lambda>q. contains (str ''orders count'') q \<or> contains (str ''number of orders'') q,
       sql_orders_count)]"

definition default_rule :: rule where
  "default_rule = (\<lambda>q. True, sql_default)"

definition rule_table :: "rule list" where
  "rule_table = keyword_rules @ [default_rule]"

fun first_match :: "rule list \<Rightarrow> ustring \<Rightarrow> ustring option" where
  "first_match [] q = None"
| "first_match (r # rs) q = (if fst r q then Some (snd r) else first_match rs q)"

definition translate_by_table :: "ucd \<Rightarrow> ustring \<Rightarrow> ustring option" where
  "translate_by_table u question = first_match rule_table (lower u question)"

text \<open>Index of the branch of \<open>generate_sql\<close> that is taken (6 is the final \<open>else\<close>).\<close>

definition selected_rule :: "ucd \<Rightarrow> ustring \<Rightarrow> nat" where
  "selected_rule u question =
     (let q = lower u question
      in if contains (str ''customers'') q \<and> contains (str ''mumbai'') q then 0
         else if contains (str ''total revenue'') q then 1
         else if contains (str ''all customers'') q then 2
         else if contains (str ''orders'') q \<and> contains (str ''status'') q then 3
         else if contains (str ''products'') q then 4
         else if contains (str ''orders count'') q \<or> contains (str ''number of orders'') q
           then 5
         else 6)"

text \<open>
  Properties of a statement named by the specification: \<open>is_select\<close> is the
  executor's own test for the read path (\<^verbatim>\<open>sql.strip().upper().startswith("SELECT")\<close>);
  a statement is bounded when it carries a \<open>LIMIT\<close> clause and ordered when it
  carries an \<open>ORDER BY\<close> clause.
\<close>

definition is_select :: "ucd \<Rightarrow> ustring \<Rightarrow> bool" where
  "is_select u sql = startswith (upper u (strip u sql)) (str ''SELECT'')"

definition is_bounded :: "ucd \<Rightarrow> ustring \<Rightarrow> bool" where
  "is_bounded u sql = contains (str ''LIMIT'') (upper u sql)"

definition is_ordered :: "ucd \<Rightarrow> ustring \<Rightarrow> bool" where
  "is_ordered u sql = contains (str ''ORDER BY'') (upper u sql)"

definition reads_from :: "ucd \<Rightarrow> ustring \<Rightarrow> ustring \<Rightarrow> bool" where
  "reads_from u table sql = contains (str ''FROM '' @ upper u table) (upper u sql)"

text \<open>
  The normalisation the specification describes adds whitespace collapsing to the
  lower-casing: every run of whitespace becomes one space. \<open>generate_sql\<close> has
  no such step; \<open>normalize_spec\<close> is what the specification's words say.
\<close>

fun collapse_ws :: "ucd \<Rightarrow> ustring \<Rightarrow> ustring" where
  "collapse_ws u [] = []"
| "collapse_ws u [c] = [if is_space u c then 32 else c]"
| "collapse_ws u (c # d # cs) =
     (if is_space u c \<and> is_space u d then collapse_ws u (d # cs)
      else (if is_space u c then 32 else c) # collapse_ws u (d # cs))"

definition normalize_spec :: "ucd \<Rightarrow> ustring \<Rightarrow> ustring" where
  "normalize_spec u question = collapse_ws u (lower u question)"

text \<open>
  Two texts differ only in the case of ASCII letters when they have the same length
  and, at each position, the code points are equal or are the capital and the small
  form of the same letter A to Z.
\<close>

definition ascii_case_variant :: "nat \<Rightarrow> nat \<Rightarrow> bool" where
  "ascii_case_variant a b =
     (a = b \<or> (65 \<le> a \<and> a \<le> 90 \<and> b = a + 32) \<or> (65 \<le> b \<and> b \<le> 90 \<and> a = b + 32))"

definition differ_only_in_ascii_case :: "ustring \<Rightarrow> ustring \<Rightarrow> bool" where
  "differ_only_in_ascii_case p q = list_all2 ascii_case_variant p q"


section \<open>The request service: \<open>execute_query_endpoint\<close>\<close>

text \<open>
  The database is an external collaborator (SQLAlchemy on SQLite). It is a parameter
  of the model: a backend gives the outcome of \<^verbatim>\<open>db.execute(text(sql))\<close> and of
  \<^verbatim>\<open>db.commit()\<close> in a database state \<open>'s\<close>, each either the message of the
  exception raised (\<open>Inl\<close>) or a normal result, together with the state reached.
  Values stored in rows have type \<open>'v\<close>; \<open>py_str\<close> is Python's \<^verbatim>\<open>str\<close> of a
  value, used when a value is formatted into a statement.
\<close>

record 'v cursor =
  fetchall :: "ustring + 'v list list"
  cur_keys :: "ustring + ustring list"
  rowcount :: int

record ('s, 'v) backend =
  db_execute :: "'s \<Rightarrow> ustring \<Rightarrow> (ustring + 'v cursor) \<times> 's"
  db_commit :: "'s \<Rightarrow> (ustring + unit) \<times> 's"
  py_str :: "'v \<Rightarrow> ustring"

text \<open>
  A session is the database state together with the session calls issued so far,
  oldest first.
\<close>

datatype call = Execute ustring | Commit

record 's session =
  db :: 's
  calls :: "call list"

definition execute :: "('s, 'v) backend \<Rightarrow> 's session \<Rightarrow> ustring \<Rightarrow> (ustring + 'v cursor) \<times> 's session" where
  "execute be ss sql =
     (case db_execute be (db ss) sql of
        (r, s') \<Rightarrow> (r, \<lparr>db = s', calls = calls ss @ [Execute sql]\<rparr>))"

definition commit :: "('s, 'v) backend \<Rightarrow> 's session \<Rightarrow> (ustring + unit) \<times> 's session" where
  "commit be ss =
     (case db_commit be (db ss) of
        (r, s') \<Rightarrow> (r, \<lparr>db = s', calls = calls ss @ [Commit]\<rparr>))"

text \<open>
  A Python \<open>dict\<close> as an association list in insertion order: assigning to a
  key that is present replaces its value where it stands, a new key goes to the end.
\<close>

fun dict_set :: "'k \<Rightarrow> 'a \<Rightarrow> ('k \<times> 'a) list \<Rightarrow> ('k \<times> 'a) list" where
  "dict_set k v [] = [(k, v)]"
| "dict_set k v (e # d) = (if fst e = k then (k, v) # d else e # dict_set k v d)"

text \<open>Message of the \<open>IndexError\<close> raised by reading a row beyond its end.\<close>

definition index_error :: ustring where
  "index_error = str ''tuple index out of range''"

text \<open>\<^verbatim>\<open>{cols[i]: row[i] for i in range(len(cols))}\<close>\<close>

definition build_dict :: "ustring list \<Rightarrow> 'v list \<Rightarrow> (ustring \<times> 'v) list" where
  "build_dict cols row = foldl (\<lambda>d i. dict_set (cols ! i) (row ! i) d) [] [0..<length cols]"

definition row_to_dict :: "ustring list \<Rightarrow> 'v list \<Rightarrow> ustring + (ustring \<times> 'v) list" where
  "row_to_dict cols row =
     (if length row < length cols then Inl index_error else Inr (build_dict cols row))"

text \<open>The list comprehension over \<open>rows\<close>; the first row that raises ends it.\<close>

fun rows_to_dicts :: "ustring list \<Rightarrow> 'v list list \<Rightarrow> ustring + (ustring \<times> 'v) list list" where
  "rows_to_dicts cols [] = Inr []"
| "rows_to_dicts cols (row # rows) =
     (case row_to_dict cols row of
        Inl e \<Rightarrow> Inl e
      | Inr d \<Rightarrow> (case rows_to_dicts cols rows of
                   Inl e \<Rightarrow> Inl e
                 | Inr ds \<Rightarrow> Inr (d # ds)))"

text \<open>
  The \<open>results\<close> field: the row mappings of a read, or the one-element list
  \<^verbatim>\<open>[{"message": ..., "rows_affected": ...}]\<close> of a write.
\<close>

datatype 'v outcome = Rows "(ustring \<times> 'v) list list" | Written ustring int

text \<open>
  \<open>QueryResponse\<close> without \<open>execution_time\<close>, which is a wall-clock
  measurement.
\<close>

record 'v query_response =
  sql_query :: ustring
  results :: "'v outcome option"
  error :: "ustring option"

text \<open>
  Lines 130 to 137 of \<open>main.py\<close>, the body of the \<open>try\<close> after the statement
  has been generated: the statement is executed first and classified afterwards.
  \<open>Inl\<close> carries \<open>str(e)\<close> of the exception that left the block.
\<close>

definition run_statement :: "ucd \<Rightarrow> ('s, 'v) backend \<Rightarrow> 's session \<Rightarrow> ustring \<Rightarrow> (ustring + 'v outcome) \<times> 's session" where
  "run_statement u be ss sql =
     (case execute be ss sql of
        (Inl e, ss1) \<Rightarrow> (Inl e, ss1)
      | (Inr res, ss1) \<Rightarrow>
          if startswith (upper u (strip u sql)) (str ''SELECT'') then
            (case fetchall res of
               Inl e \<Rightarrow> (Inl e, ss1)
             | Inr rows \<Rightarrow>
                 (case cur_keys res of
                    Inl e \<Rightarrow> (Inl e, ss1)
                  | Inr cols \<Rightarrow>
                      (case rows_to_dicts cols rows of
                         Inl e \<Rightarrow> (Inl e, ss1)
                       | Inr ds \<Rightarrow> (Inr (Rows ds), ss1))))
          else
            (case commit be ss1 of
               (Inl e, ss2) \<Rightarrow> (Inl e, ss2)
             | (Inr x, ss2) \<Rightarrow>
                 (Inr (Written (str ''Executed successfully'') (rowcount res)), ss2)))"

definition execute_query_endpoint :: "ucd \<Rightarrow> ('s, 'v) backend \<Rightarrow> 's session \<Rightarrow> ustring \<Rightarrow> 'v query_response \<times> 's session" where
  "execute_query_endpoint u be ss question =
     (let sql = generate_sql u question
      in case run_statement u be ss sql of
           (Inr res, ss') \<Rightarrow> (\<lparr>sql_query = sql, results = Some res, error = None\<rparr>, ss')
         | (Inl e, ss') \<Rightarrow> (\<lparr>sql_query = sql, results = None, error = Some e\<rparr>, ss'))"


section \<open>Schema introspection: \<open>get_schema\<close>\<close>


record 'v column =
  col_name :: 'v
  col_type :: 'v

definition master_query :: ustring where
  "master_query = str ''SELECT name FROM sqlite_master WHERE type='table';''"

text \<open>\<^verbatim>\<open>f"PRAGMA table_info({table_name});"\<close>\<close>

definition pragma_query :: "ustring \<Rightarrow> ustring" where
  "pragma_query table_name = str ''PRAGMA table_info('' @ table_name @ str '');''"









section \<open>A sample database\<close>

text \<open>
  A small backend on which the statements below are exercised: the \<open>customers\<close>
  and \<open>orders\<close> tables of \<open>init_db.py\<close> and the four seeded customers. Values
  are shown as text. The \<open>customers\<close> table has no \<open>first_name\<close> column, so the
  statements that name it are rejected; a \<open>DELETE\<close> stands for a statement of the
  write path. The state counts the commits.
\<close>

definition customer_columns :: "ustring list" where
  "customer_columns = map str [''customer_id'', ''name'', ''city'', ''registration_date'']"

definition customer_rows :: "ustring list list" where
  "customer_rows = map (map str)
     [ [''1'', ''Vikram Rao'', ''Bangalore'', ''2024-11-01''],
       [''2'', ''Kiran Das'', ''Chennai'', ''2024-11-02''],
       [''3'', ''Sneha Iyer'', ''Mumbai'', ''2024-11-03''],
       [''4'', ''Arun Nair'', ''Delhi'', ''2024-11-04''] ]"

definition table_info :: "ustring \<Rightarrow> ustring list list" where
  "table_info name = map (map str)
     (if name = str ''customers'' then
        [ [''0'', ''customer_id'', ''INTEGER'', ''0'', ''None'', ''1''],
          [''1'', ''name'', ''TEXT'', ''0'', ''None'', ''0''],
          [''2'', ''city'', ''TEXT'', ''0'', ''None'', ''0''],
          [''3'', ''registration_date'', ''TEXT'', ''0'', ''None'', ''0''] ]
      else if name = str ''orders'' then
        [ [''0'', ''order_id'', ''INTEGER'', ''0'', ''None'', ''1''],
          [''1'', ''customer_id'', ''INTEGER'', ''0'', ''None'', ''0''],
          [''2'', ''order_date'', ''TEXT'', ''0'', ''None'', ''0''],
          [''3'', ''total_amount'', ''REAL'', ''0'', ''None'', ''0''] ]
      else [])"

definition table_info_columns :: "ustring list" where
  "table_info_columns = map str [''cid'', ''name'', ''type'', ''notnull'', ''dflt_value'', ''pk'']"

definition sample_tables :: "ustring list list" where
  "sample_tables = [ [str ''customers''], [str ''orders''] ]"

definition delete_customers :: ustring where
  "delete_customers = str ''DELETE FROM customers;''"

definition sample_execute :: "nat \<Rightarrow> ustring \<Rightarrow> (ustring + ustring cursor) \<times> nat" where
  "sample_execute s q =
     (if q = sql_all_customers \<or> q = sql_default then
        (Inr \<lparr>fetchall = Inr customer_rows, cur_keys = Inr customer_columns, rowcount = - 1\<rparr>, s)
      else if q = master_query then
        (Inr \<lparr>fetchall = Inr sample_tables, cur_keys = Inr [str ''name''], rowcount = - 1\<rparr>, s)
      else if q = pragma_query (str ''customers'') then
        (Inr \<lparr>fetchall = Inr (table_info (str ''customers'')),
              cur_keys = Inr table_info_columns, rowcount = - 1\<rparr>, s)
      else if q = pragma_query (str ''orders'') then
        (Inr \<lparr>fetchall = Inr (table_info (str ''orders'')),
              cur_keys = Inr table_info_columns, rowcount = - 1\<rparr>, s)
      else if q = delete_customers then
        (Inr \<lparr>fetchall = Inl (str ''This result object does not return rows.''),
              cur_keys = Inr [], rowcount = 4\<rparr>, s)
      else (Inl (str ''no such column: c.first_name''), s))"

definition sample_backend :: "(nat, ustring) backend" where
  "sample_backend =
     \<lparr>db_execute = sample_execute, db_commit = (\<lambda>s. (Inr (), Suc s)), py_str = (\<lambda>v. v)\<rparr>"

definition fresh_session :: "nat session" where
  "fresh_session = \<lparr>db = 0, calls = []\<rparr>"



section \<open>Text on the ASCII range\<close>

lemma lower_from_ascii: "is_ascii s \<Longrightarrow> lower_from u left s = map ascii_lower s"
  by (induction s arbitrary: left) (auto simp: is_ascii_def lower_full_def)

lemma lower_ascii: "is_ascii s \<Longrightarrow> lower u s = map ascii_lower s"
  by (simp add: lower_def lower_from_ascii)

lemma upper_ascii: "is_ascii s \<Longrightarrow> upper u s = map ascii_upper s"
  by (induction s) (auto simp: is_ascii_def upper_def upper_full_def)

lemma is_space_ascii: "c < 128 \<Longrightarrow> is_space u c = is_space v c"
  by (simp add: is_space_def)

lemma dropWhile_space_ascii:
  "is_ascii s \<Longrightarrow> dropWhile (is_space u) s = dropWhile (is_space v) s"
  by (induction s) (auto simp: is_ascii_def is_space_def)

lemma is_ascii_dropWhile: "is_ascii s \<Longrightarrow> is_ascii (dropWhile P s)"
  unfolding is_ascii_def list_all_iff using set_dropWhileD by fast

lemma is_ascii_rev: "is_ascii (rev s) = is_ascii s"
  by (simp add: is_ascii_def list_all_iff)

lemma is_ascii_strip: "is_ascii s \<Longrightarrow> is_ascii (strip u s)"
  by (simp add: strip_def is_ascii_rev is_ascii_dropWhile)

lemma strip_ascii: "is_ascii s \<Longrightarrow> strip u s = strip v s"
proof -
  assume a: "is_ascii s"
  have 1: "dropWhile (is_space u) s = dropWhile (is_space v) s"
    using a by (rule dropWhile_space_ascii)
  have "is_ascii (rev (dropWhile (is_space v) s))"
    using a by (simp add: is_ascii_rev is_ascii_dropWhile)
  then have "dropWhile (is_space u) (rev (dropWhile (is_space v) s))
      = dropWhile (is_space v) (rev (dropWhile (is_space v) s))"
    by (rule dropWhile_space_ascii)
  with 1 show ?thesis by (simp add: strip_def)
qed

lemma collapse_ws_ascii: "is_ascii s \<Longrightarrow> collapse_ws u s = collapse_ws v s"
  by (induction u s rule: collapse_ws.induct) (auto simp: is_ascii_def is_space_def)

lemma is_ascii_map_lower: "is_ascii s \<Longrightarrow> is_ascii (map ascii_lower s)"
  by (auto simp: is_ascii_def list_all_iff ascii_lower_def)

lemma generate_sql_ascii: "is_ascii q \<Longrightarrow> generate_sql u q = generate_sql v q"
  by (simp add: generate_sql_def lower_ascii)

lemma selected_rule_ascii: "is_ascii q \<Longrightarrow> selected_rule u q = selected_rule v q"
  by (simp add: selected_rule_def lower_ascii)

lemma normalize_spec_ascii: "is_ascii q \<Longrightarrow> normalize_spec u q = normalize_spec v q"
  using collapse_ws_ascii[OF is_ascii_map_lower, of q u v]
  by (simp add: normalize_spec_def lower_ascii)

lemma is_select_ascii: "is_ascii s \<Longrightarrow> is_select u s = is_select v s"
  using strip_ascii[of s u v] is_ascii_strip[of s v]
  by (simp add: is_select_def upper_ascii)

lemma is_bounded_ascii: "is_ascii s \<Longrightarrow> is_bounded u s = is_bounded v s"
  by (simp add: is_bounded_def upper_ascii)

lemma is_ordered_ascii: "is_ascii s \<Longrightarrow> is_ordered u s = is_ordered v s"
  by (simp add: is_ordered_def upper_ascii)

lemma reads_from_ascii:
  "is_ascii t \<Longrightarrow> is_ascii s \<Longrightarrow> reads_from u t s = reads_from v t s"
  by (simp add: reads_from_def upper_ascii)

lemma templates_ascii: "t \<in> set templates \<Longrightarrow> is_ascii t"
proof -
  have "list_all is_ascii templates" by code_simp
  then show "t \<in> set templates \<Longrightarrow> is_ascii t"
    by (simp add: list_all_iff)
qed

section \<open>Properties of the translator\<close>

lemma templates_nonempty: "t \<in> set templates \<Longrightarrow> t \<noteq> []"
  by (auto simp: templates_def sql_customers_mumbai_def sql_total_revenue_def
      sql_all_customers_def sql_orders_status_def sql_products_def sql_orders_count_def
      sql_default_def str_def)

lemma generate_sql_index: "generate_sql u q = templates ! selected_rule u q"
  by (simp add: generate_sql_def selected_rule_def templates_def Let_def)

lemma selected_rule_bound: "selected_rule u q < 7"
  by (simp add: selected_rule_def Let_def)

lemma generate_sql_in_templates: "generate_sql u q \<in> set templates"
  by (simp add: generate_sql_def templates_def Let_def)

lemma generate_sql_table: "translate_by_table u q = Some (generate_sql u q)"
  by (simp add: translate_by_table_def rule_table_def keyword_rules_def default_rule_def
      generate_sql_def Let_def)

lemma no_keyword_rule_default:
  "\<forall>r\<in>set keyword_rules. \<not> fst r (lower u q) \<Longrightarrow> generate_sql u q = sql_default"
  by (auto simp: keyword_rules_def generate_sql_def Let_def)

lemma generate_sql_nil: "generate_sql u [] = sql_default"
proof -
  have "generate_sql u [] = generate_sql sample_ucd []"
    by (rule generate_sql_ascii) (simp add: is_ascii_def)
  also have "\<dots> = sql_default" by code_simp
  finally show ?thesis .
qed

lemma sql_default_ascii: "is_ascii sql_default"
  by code_simp

lemma sql_default_bounded_read: "is_bounded u sql_default \<and> is_select u sql_default"
proof -
  have "is_bounded sample_ucd sql_default \<and> is_select sample_ucd sql_default"
    by code_simp
  then show ?thesis
    using is_bounded_ascii[OF sql_default_ascii, of u sample_ucd]
      is_select_ascii[OF sql_default_ascii, of u sample_ucd]
    by simp
qed

text \<open>
  Claim C1. \<open>generate_sql\<close> is a total function of the question text and its
  result is never the empty string; the empty question gets the fallback statement;
  whenever none of the six keyword rules matches the lower-cased question, the
  default rule (whose predicate is always true) gives the fallback statement, which
  carries a \<open>LIMIT\<close> clause and is a \<open>SELECT\<close>. The function has no branch that
  raises. This holds whatever the Unicode tables are.
\<close>

theorem generate_sql_total:
  "generate_sql u question \<noteq> []
   \<and> generate_sql u [] = sql_default
   \<and> ((\<forall>r\<in>set keyword_rules. \<not> fst r (lower u question)) \<longrightarrow>
        generate_sql u question = sql_default)
   \<and> snd default_rule = sql_default \<and> fst default_rule (lower u question)
   \<and> is_bounded u sql_default \<and> is_select u sql_default"
  using templates_nonempty[OF generate_sql_in_templates] generate_sql_nil
    no_keyword_rule_default sql_default_bounded_read
  by (simp add: default_rule_def)

theorem generate_sql_total_witness:
  "list_all (\<lambda>r. \<not> fst r (lower sample_ucd (str ''asdfasdf''))) keyword_rules
   \<and> generate_sql sample_ucd (str ''asdfasdf'') = str ''SELECT * FROM customers LIMIT 10;''"
proof -
  have h: "\<forall>r\<in>set keyword_rules. \<not> fst r (lower sample_ucd (str ''asdfasdf''))"
    by code_simp
  from generate_sql_total[of sample_ucd "str ''asdfasdf''"] h
  have "generate_sql sample_ucd (str ''asdfasdf'') = sql_default" by blast
  with h show ?thesis by (simp add: sql_default_def list_all_iff)
qed

text \<open>
  Claim C4. \<open>generate_sql\<close> reads nothing but its argument, so it is a function:
  equal questions give equal SQL. Its result is always one of the seven fixed
  template strings, namely the one at the index of the selected rule, so the
  question influences the statement only through that index and no text of the
  question reaches the SQL.
\<close>

theorem generate_sql_closed:
  "generate_sql u question \<in> set templates
   \<and> length templates = 7
   \<and> selected_rule u question < 7
   \<and> generate_sql u question = templates ! selected_rule u question
   \<and> (selected_rule u question = selected_rule u question' \<longrightarrow>
        generate_sql u question = generate_sql u question')"
  using generate_sql_in_templates selected_rule_bound generate_sql_index
  by (simp add: templates_def)

theorem generate_sql_closed_witness:
  "selected_rule sample_ucd (str ''List the products'')
     = selected_rule sample_ucd (str ''PRODUCTS; DROP TABLE customers'')
   \<and> generate_sql sample_ucd (str ''List the products'')
     = generate_sql sample_ucd (str ''PRODUCTS; DROP TABLE customers'')
   \<and> generate_sql sample_ucd (str ''PRODUCTS; DROP TABLE customers'')
     = str ''SELECT * FROM products ORDER BY price DESC;''"
proof -
  have h: "selected_rule sample_ucd (str ''List the products'')
     = selected_rule sample_ucd (str ''PRODUCTS; DROP TABLE customers'')"
    by code_simp
  have g: "generate_sql sample_ucd (str ''PRODUCTS; DROP TABLE customers'')
     = str ''SELECT * FROM products ORDER BY price DESC;''"
    by code_simp
  from generate_sql_closed[of sample_ucd "str ''List the products''"
      "str ''PRODUCTS; DROP TABLE customers''"] h
  have "generate_sql sample_ucd (str ''List the products'')
     = generate_sql sample_ucd (str ''PRODUCTS; DROP TABLE customers'')"
    by blast
  with h g show ?thesis by simp
qed

lemma first_match_least:
  "i < length rs \<Longrightarrow> fst (rs ! i) x \<Longrightarrow> \<forall>j<i. \<not> fst (rs ! j) x
   \<Longrightarrow> first_match rs x = Some (snd (rs ! i))"
proof (induction rs arbitrary: i)
  case Nil
  then show ?case by simp
next
  case (Cons r rs)
  show ?case
  proof (cases i)
    case 0
    with Cons.prems show ?thesis by simp
  next
    case (Suc k)
    from Cons.prems(3) Suc have head: "\<not> fst r x" by auto
    have "\<forall>j<k. \<not> fst (rs ! j) x"
    proof (intro allI impI)
      fix j assume "j < k"
      then have "Suc j < i" using Suc by simp
      with Cons.prems(3) have "\<not> fst ((r # rs) ! Suc j) x" by blast
      then show "\<not> fst (rs ! j) x" by simp
    qed
    then have "first_match rs x = Some (snd (rs ! k))"
      using Cons.IH[of k] Cons.prems(1,2) Suc by simp
    then show ?thesis using Suc head by simp
  qed
qed

text \<open>
  Claim C5. The rules are tried in declaration order on the lower-cased question:
  when rule \<open>i\<close> of the table matches and no earlier rule does, the SQL returned is
  the template of rule \<open>i\<close>, whatever the later rules would say.
\<close>

theorem first_rule_wins:
  assumes "i < length rule_table"
    and "fst (rule_table ! i) (lower u question)"
    and "\<forall>j<i. \<not> fst (rule_table ! j) (lower u question)"
  shows "generate_sql u question = snd (rule_table ! i)"
proof -
  have "translate_by_table u question = Some (snd (rule_table ! i))"
    unfolding translate_by_table_def using assms by (rule first_match_least)
  then show ?thesis by (simp add: generate_sql_table)
qed

theorem first_rule_wins_witness:
  "(1::nat) < length rule_table
   \<and> fst (rule_table ! 1) (lower sample_ucd (str ''Total revenue of all customers''))
   \<and> fst (rule_table ! 2) (lower sample_ucd (str ''Total revenue of all customers''))
   \<and> \<not> fst (rule_table ! 0) (lower sample_ucd (str ''Total revenue of all customers''))
   \<and> generate_sql sample_ucd (str ''Total revenue of all customers'') = sql_total_revenue"
proof -
  have a: "(1::nat) < length rule_table"
    by (simp add: rule_table_def keyword_rules_def)
  have b: "fst (rule_table ! 1) (lower sample_ucd (str ''Total revenue of all customers''))"
    by code_simp
  have c: "fst (rule_table ! 2) (lower sample_ucd (str ''Total revenue of all customers''))"
    by code_simp
  have z: "\<not> fst (rule_table ! 0) (lower sample_ucd (str ''Total revenue of all customers''))"
    by code_simp
  then have d: "\<forall>j<1. \<not> fst (rule_table ! j) (lower sample_ucd (str ''Total revenue of all customers''))"
    by simp
  have "snd (rule_table ! 1) = sql_total_revenue"
    by (simp add: rule_table_def keyword_rules_def)
  with first_rule_wins[OF a b d] a b c z show ?thesis by simp
qed

subsection \<open>Letter case\<close>

lemma variant_lower_full: "ascii_case_variant a b \<Longrightarrow> lower_full u a = lower_full u b"
  by (auto simp: ascii_case_variant_def lower_full_def ascii_lower_def)


lemma variant_cased: "ascii_case_variant a b \<Longrightarrow> cased u a = cased u b"
  by (auto simp: ascii_case_variant_def cased_def)

lemma variant_case_ignorable:
  "ascii_case_variant a b \<Longrightarrow> case_ignorable u a = case_ignorable u b"
  by (auto simp: ascii_case_variant_def case_ignorable_def)


lemma variant_sigma: "ascii_case_variant a b \<Longrightarrow> (a = 931) = (b = 931)"
  by (auto simp: ascii_case_variant_def)

lemma variant_dropWhile:
  assumes "list_all2 ascii_case_variant xs ys"
    and "\<And>a b. ascii_case_variant a b \<Longrightarrow> P a = P b"
  shows "list_all2 ascii_case_variant (dropWhile P xs) (dropWhile P ys)"
  using assms(1)
proof (induction xs ys rule: list_all2_induct)
  case Nil
  show ?case by simp
next
  case (Cons x xs y ys)
  from assms(2)[OF Cons.hyps(1)] have "P x = P y" .
  with Cons show ?case by simp
qed

lemma variant_case_head:
  assumes "list_all2 ascii_case_variant xs ys"
    and "\<And>a b. ascii_case_variant a b \<Longrightarrow> f a = f b"
  shows "(case xs of [] \<Rightarrow> z | x # _ \<Rightarrow> f x) = (case ys of [] \<Rightarrow> z | y # _ \<Rightarrow> f y)"
  using assms by (cases xs; cases ys) auto

lemma variant_final_sigma:
  assumes l: "list_all2 ascii_case_variant left left'"
    and r: "list_all2 ascii_case_variant right right'"
  shows "final_sigma u left right = final_sigma u left' right'"
proof -
  have dl: "list_all2 ascii_case_variant
      (dropWhile (case_ignorable u) left) (dropWhile (case_ignorable u) left')"
    using l by (rule variant_dropWhile) (rule variant_case_ignorable)
  have dr: "list_all2 ascii_case_variant
      (dropWhile (case_ignorable u) right) (dropWhile (case_ignorable u) right')"
    using r by (rule variant_dropWhile) (rule variant_case_ignorable)
  have tail: "(case dropWhile (case_ignorable u) right of [] \<Rightarrow> True | d # _ \<Rightarrow> \<not> cased u d)
      = (case dropWhile (case_ignorable u) right' of [] \<Rightarrow> True | d # _ \<Rightarrow> \<not> cased u d)"
    using dr by (rule variant_case_head) (simp add: variant_cased)
  show ?thesis
    unfolding final_sigma_def tail
    using dl by (rule variant_case_head) (simp add: variant_cased)
qed

lemma variant_lower_from:
  "list_all2 ascii_case_variant p q \<Longrightarrow> list_all2 ascii_case_variant left left'
   \<Longrightarrow> lower_from u left p = lower_from u left' q"
proof (induction p q arbitrary: left left' rule: list_all2_induct)
  case Nil
  show ?case by simp
next
  case (Cons x xs y ys)
  have rest: "lower_from u (x # left) xs = lower_from u (y # left') ys"
    using Cons.IH[of "x # left" "y # left'"] Cons.hyps(1) Cons.prems by simp
  have sig: "final_sigma u left xs = final_sigma u left' ys"
    using Cons.prems Cons.hyps(2) by (rule variant_final_sigma)
  show ?case
    using rest sig variant_sigma[OF Cons.hyps(1)] variant_lower_full[OF Cons.hyps(1), of u]
    by simp
qed

lemma differ_only_in_ascii_case_lower:
  "differ_only_in_ascii_case p q \<Longrightarrow> lower u p = lower u q"
  unfolding differ_only_in_ascii_case_def lower_def
  by (rule variant_lower_from) simp_all

lemma generate_sql_lower: "lower u p = lower u q \<Longrightarrow> generate_sql u p = generate_sql u q"
  by (simp add: generate_sql_def)

lemma selected_rule_lower: "lower u p = lower u q \<Longrightarrow> selected_rule u p = selected_rule u q"
  by (simp add: selected_rule_def)

text \<open>
  Claim C6 as stated does not hold: the two questions below have the same
  lower-cased, whitespace-collapsed form, yet they get different SQL, because
  \<open>generate_sql\<close> only lower-cases.
\<close>

theorem whitespace_not_collapsed:
  "\<forall>u. normalize_spec u (str ''Show all  customers'') = normalize_spec u (str ''show all customers'')
     \<and> generate_sql u (str ''Show all  customers'') \<noteq> generate_sql u (str ''show all customers'')"
proof
  fix u
  have a: "is_ascii (str ''Show all  customers'')" and b: "is_ascii (str ''show all customers'')"
    by code_simp+
  have "normalize_spec sample_ucd (str ''Show all  customers'')
        = normalize_spec sample_ucd (str ''show all customers'')
     \<and> generate_sql sample_ucd (str ''Show all  customers'')
        \<noteq> generate_sql sample_ucd (str ''show all customers'')"
    by code_simp
  then show "normalize_spec u (str ''Show all  customers'') = normalize_spec u (str ''show all customers'')
     \<and> generate_sql u (str ''Show all  customers'') \<noteq> generate_sql u (str ''show all customers'')"
    using normalize_spec_ascii[OF a, of u sample_ucd] normalize_spec_ascii[OF b, of u sample_ucd]
      generate_sql_ascii[OF a, of u sample_ucd] generate_sql_ascii[OF b, of u sample_ucd]
    by simp
qed

text \<open>
  Letter case beyond ASCII is not folded away either: with the dotless i (305), whose
  capital form is the ASCII letter I, a question and its upper-cased form get
  different SQL.
\<close>

lemma dotless_i_case_pair:
  "upper sample_ucd (str ''customers mumba'' @ [305]) = str ''CUSTOMERS MUMBAI''
   \<and> generate_sql sample_ucd (str ''customers mumba'' @ [305]) = sql_default
   \<and> generate_sql sample_ucd (str ''CUSTOMERS MUMBAI'') = sql_customers_mumbai"
  by code_simp

text \<open>
  Claim C6, amended. Before any rule predicate is evaluated the question is
  normalised by lower-casing only (whitespace is left as it is), and this never
  fails: the result is that of the rule table applied to the lower-cased question.
  Consequently two questions that differ only in the case of ASCII letters select
  the same rule and yield the same SQL, whatever other code points they contain and
  whatever the Unicode tables are.
\<close>

theorem case_insensitive:
  "translate_by_table u question = Some (generate_sql u question)
   \<and> (differ_only_in_ascii_case question question' \<longrightarrow>
        selected_rule u question = selected_rule u question'
        \<and> generate_sql u question = generate_sql u question')"
  using generate_sql_table differ_only_in_ascii_case_lower generate_sql_lower selected_rule_lower
  by blast

theorem case_insensitive_witness:
  "differ_only_in_ascii_case ([192] @ str '' Show ALL Customers'') ([192] @ str '' show all customers'')
   \<and> generate_sql sample_ucd ([192] @ str '' Show ALL Customers'')
     = generate_sql sample_ucd ([192] @ str '' show all customers'')
   \<and> generate_sql sample_ucd ([192] @ str '' show all customers'') = sql_all_customers"
proof -
  have h: "differ_only_in_ascii_case ([192] @ str '' Show ALL Customers'')
      ([192] @ str '' show all customers'')"
    by code_simp
  have g: "generate_sql sample_ucd ([192] @ str '' show all customers'') = sql_all_customers"
    by code_simp
  from case_insensitive[of sample_ucd "[192] @ str '' Show ALL Customers''"
      "[192] @ str '' show all customers''"] h g
  show ?thesis by blast
qed

lemma show_all_customers_ascii: "is_ascii (str ''Show all customers'')"
  by code_simp

lemma sql_all_customers_ascii: "is_ascii sql_all_customers"
  by code_simp

lemma show_all_customers_rule:
  "selected_rule u (str ''Show all customers'') = 2
   \<and> generate_sql u (str ''Show all customers'') = sql_all_customers"
proof -
  have "selected_rule sample_ucd (str ''Show all customers'') = 2
   \<and> generate_sql sample_ucd (str ''Show all customers'') = sql_all_customers"
    by code_simp
  then show ?thesis
    using selected_rule_ascii[OF show_all_customers_ascii, of u sample_ucd]
      generate_sql_ascii[OF show_all_customers_ascii, of u sample_ucd]
    by simp
qed

lemma sql_all_customers_shape:
  "is_select u sql_all_customers \<and> reads_from u (str ''customers'') sql_all_customers
   \<and> is_ordered u sql_all_customers \<and> \<not> is_bounded u sql_all_customers"
proof -
  have c: "is_ascii (str ''customers'')" by code_simp
  have "is_select sample_ucd sql_all_customers
   \<and> reads_from sample_ucd (str ''customers'') sql_all_customers
   \<and> is_ordered sample_ucd sql_all_customers \<and> \<not> is_bounded sample_ucd sql_all_customers"
    by code_simp
  then show ?thesis
    using is_select_ascii[OF sql_all_customers_ascii, of u sample_ucd]
      reads_from_ascii[OF c sql_all_customers_ascii, of u sample_ucd]
      is_ordered_ascii[OF sql_all_customers_ascii, of u sample_ucd]
      is_bounded_ascii[OF sql_all_customers_ascii, of u sample_ucd]
    by simp
qed

text \<open>
  Claim C8 as stated does not hold: the statement generated for
  \<open>Show all customers\<close> is not both bounded and ordered.
\<close>

theorem show_all_customers_not_bounded:
  "\<forall>u. \<not> (is_bounded u (generate_sql u (str ''Show all customers''))
      \<and> is_ordered u (generate_sql u (str ''Show all customers'')))"
  using show_all_customers_rule sql_all_customers_shape by simp

text \<open>
  Claim C8, amended. For the input \<open>Show all customers\<close> the third rule (all
  customers) is selected, and the resulting SQL is a \<open>SELECT\<close> over the customers
  relation that is ordered (by registration date, descending) and carries no row
  limit.
\<close>

theorem show_all_customers:
  "selected_rule u (str ''Show all customers'') = 2
   \<and> generate_sql u (str ''Show all customers'')
       = str ''SELECT * FROM customers ORDER BY registration_date DESC;''
   \<and> is_select u (generate_sql u (str ''Show all customers''))
   \<and> reads_from u (str ''customers'') (generate_sql u (str ''Show all customers''))
   \<and> is_ordered u (generate_sql u (str ''Show all customers''))
   \<and> \<not> is_bounded u (generate_sql u (str ''Show all customers''))"
  using show_all_customers_rule[of u] sql_all_customers_shape[of u]
  by (simp add: sql_all_customers_def)

section \<open>Properties of the executor\<close>

lemma template_select:
  assumes "t \<in> set templates"
  shows "startswith (strip u t) (str ''SELECT'') \<and> is_select u t"
proof -
  have a: "is_ascii t" using assms by (rule templates_ascii)
  have "list_all (\<lambda>t. startswith (strip sample_ucd t) (str ''SELECT'')
      \<and> is_select sample_ucd t) templates"
    by code_simp
  with assms have "startswith (strip sample_ucd t) (str ''SELECT'') \<and> is_select sample_ucd t"
    by (simp add: list_all_iff)
  then show ?thesis
    using strip_ascii[OF a, of u sample_ucd] is_select_ascii[OF a, of u sample_ucd] by simp
qed

lemma generate_sql_select: "is_select u (generate_sql u q)"
  using template_select[OF generate_sql_in_templates] by simp

lemma run_statement_execute_fails:
  "db_execute be (db ss) sql = (Inl e, s1) \<Longrightarrow>
   run_statement u be ss sql = (Inl e, \<lparr>db = s1, calls = calls ss @ [Execute sql]\<rparr>)"
  by (simp add: run_statement_def execute_def)

lemma run_statement_read:
  "db_execute be (db ss) sql = (Inr res, s1) \<Longrightarrow> is_select u sql \<Longrightarrow>
   run_statement u be ss sql =
     ((case fetchall res of
         Inl e \<Rightarrow> Inl e
       | Inr rows \<Rightarrow> (case cur_keys res of
            Inl e \<Rightarrow> Inl e
          | Inr cols \<Rightarrow> (case rows_to_dicts cols rows of Inl e \<Rightarrow> Inl e | Inr ds \<Rightarrow> Inr (Rows ds)))),
      \<lparr>db = s1, calls = calls ss @ [Execute sql]\<rparr>)"
  by (simp add: run_statement_def execute_def is_select_def split: sum.splits)











lemma endpoint_unfold:
  "execute_query_endpoint u be ss question =
     (case run_statement u be ss (generate_sql u question) of
        (Inr res, ss') \<Rightarrow>
          (\<lparr>sql_query = generate_sql u question, results = Some res, error = None\<rparr>, ss')
      | (Inl e, ss') \<Rightarrow>
          (\<lparr>sql_query = generate_sql u question, results = None, error = Some e\<rparr>, ss'))"
  by (simp add: execute_query_endpoint_def Let_def)

lemma endpoint_sql:
  "sql_query (fst (execute_query_endpoint u be ss question)) = generate_sql u question"
  by (simp add: endpoint_unfold split: prod.splits sum.splits)

lemma endpoint_error:
  "fst (run_statement u be ss (generate_sql u question)) = Inl e \<Longrightarrow>
   fst (execute_query_endpoint u be ss question)
     = \<lparr>sql_query = generate_sql u question, results = None, error = Some e\<rparr>"
  by (auto simp: endpoint_unfold split: prod.splits sum.splits)

lemma endpoint_session:
  "snd (execute_query_endpoint u be ss question)
     = snd (run_statement u be ss (generate_sql u question))"
  by (auto simp: endpoint_unfold split: prod.splits sum.splits)

text \<open>
  Claim C3. \<open>execute_query_endpoint\<close> returns a response for every question and
  every backend. Whenever the executor phase fails, whether the execution itself,
  fetching the rows or reading the column names raises, the response carries the
  generated SQL text in \<open>sql_query\<close>, the message of the failure in \<open>error\<close>
  and no results.
\<close>

theorem execution_error_contained:
  "sql_query (fst (execute_query_endpoint u be ss question)) = generate_sql u question
   \<and> (\<forall>e. fst (run_statement u be ss (generate_sql u question)) = Inl e \<longrightarrow>
         fst (execute_query_endpoint u be ss question)
           = \<lparr>sql_query = generate_sql u question, results = None, error = Some e\<rparr>)
   \<and> (\<forall>e s1. db_execute be (db ss) (generate_sql u question) = (Inl e, s1) \<longrightarrow>
         fst (execute_query_endpoint u be ss question)
           = \<lparr>sql_query = generate_sql u question, results = None, error = Some e\<rparr>)
   \<and> (\<forall>res s1 e. db_execute be (db ss) (generate_sql u question) = (Inr res, s1)
         \<and> fetchall res = Inl e \<longrightarrow>
         fst (execute_query_endpoint u be ss question)
           = \<lparr>sql_query = generate_sql u question, results = None, error = Some e\<rparr>)
   \<and> (\<forall>res s1 rows e. db_execute be (db ss) (generate_sql u question) = (Inr res, s1)
         \<and> fetchall res = Inr rows \<and> cur_keys res = Inl e \<longrightarrow>
         fst (execute_query_endpoint u be ss question)
           = \<lparr>sql_query = generate_sql u question, results = None, error = Some e\<rparr>)"
proof (intro conjI allI impI)
  show "sql_query (fst (execute_query_endpoint u be ss question)) = generate_sql u question"
    by (rule endpoint_sql)
next
  fix e assume "fst (run_statement u be ss (generate_sql u question)) = Inl e"
  then show "fst (execute_query_endpoint u be ss question)
           = \<lparr>sql_query = generate_sql u question, results = None, error = Some e\<rparr>"
    by (rule endpoint_error)
next
  fix e s1 assume "db_execute be (db ss) (generate_sql u question) = (Inl e, s1)"
  then have "fst (run_statement u be ss (generate_sql u question)) = Inl e"
    by (simp add: run_statement_execute_fails)
  then show "fst (execute_query_endpoint u be ss question)
           = \<lparr>sql_query = generate_sql u question, results = None, error = Some e\<rparr>"
    by (rule endpoint_error)
next
  fix res s1 e
  assume "db_execute be (db ss) (generate_sql u question) = (Inr res, s1) \<and> fetchall res = Inl e"
  then have "fst (run_statement u be ss (generate_sql u question)) = Inl e"
    by (simp add: run_statement_read generate_sql_select)
  then show "fst (execute_query_endpoint u be ss question)
           = \<lparr>sql_query = generate_sql u question, results = None, error = Some e\<rparr>"
    by (rule endpoint_error)
next
  fix res s1 rows e
  assume "db_execute be (db ss) (generate_sql u question) = (Inr res, s1)
         \<and> fetchall res = Inr rows \<and> cur_keys res = Inl e"
  then have "fst (run_statement u be ss (generate_sql u question)) = Inl e"
    by (simp add: run_statement_read generate_sql_select)
  then show "fst (execute_query_endpoint u be ss question)
           = \<lparr>sql_query = generate_sql u question, results = None, error = Some e\<rparr>"
    by (rule endpoint_error)
qed

theorem execution_error_contained_witness:
  "db_execute sample_backend (db fresh_session)
       (generate_sql sample_ucd (str ''List customers from Mumbai''))
     = (Inl (str ''no such column: c.first_name''), 0)
   \<and> fst (execute_query_endpoint sample_ucd sample_backend fresh_session
         (str ''List customers from Mumbai''))
     = \<lparr>sql_query = sql_customers_mumbai, results = None,
        error = Some (str ''no such column: c.first_name'')\<rparr>"
proof -
  have g: "generate_sql sample_ucd (str ''List customers from Mumbai'') = sql_customers_mumbai"
    by code_simp
  have h: "db_execute sample_backend (db fresh_session)
       (generate_sql sample_ucd (str ''List customers from Mumbai''))
     = (Inl (str ''no such column: c.first_name''), 0)"
    by code_simp
  note t = execution_error_contained[of sample_ucd sample_backend fresh_session
      "str ''List customers from Mumbai''", THEN conjunct2, THEN conjunct2, THEN conjunct1,
      rule_format, OF h]
  have "fst (execute_query_endpoint sample_ucd sample_backend fresh_session
         (str ''List customers from Mumbai''))
     = \<lparr>sql_query = sql_customers_mumbai, results = None,
        error = Some (str ''no such column: c.first_name'')\<rparr>"
    using t unfolding g .
  with h show ?thesis by (rule conjI)
qed

lemma dict_set_fresh: "k \<notin> fst ` set d \<Longrightarrow> dict_set k v d = d @ [(k, v)]"
  by (induction d) auto

lemma map_of_dict_set: "map_of (dict_set k v d) = (map_of d)(k \<mapsto> v)"
  by (induction d) (auto simp: fun_eq_iff)

lemma build_prefix_distinct:
  assumes "length cols \<le> length row" and "distinct cols"
  shows "n \<le> length cols \<Longrightarrow>
    foldl (\<lambda>d i. dict_set (cols ! i) (row ! i) d) [] [0..<n] = take n (zip cols row)"
proof (induction n)
  case 0
  show ?case by simp
next
  case (Suc n)
  let ?d = "take n (zip cols row)"
  from Suc.prems have n: "n < length cols" by simp
  have keys: "map fst ?d = take n cols"
    using assms(1) n by (simp add: take_zip map_fst_zip_take min_def)
  have "cols ! n \<notin> set (take n cols)"
    using assms(2) n by (auto simp: in_set_conv_nth nth_eq_iff_index_eq)
  then have fresh: "cols ! n \<notin> fst ` set ?d"
    using keys by (metis set_map)
  have "take (Suc n) (zip cols row) = ?d @ [(cols ! n, row ! n)]"
    using n assms(1) by (simp add: take_Suc_conv_app_nth)
  with Suc fresh n show ?case
    by (simp add: dict_set_fresh)
qed

lemma build_dict_distinct:
  "length cols \<le> length row \<Longrightarrow> distinct cols \<Longrightarrow> build_dict cols row = zip cols row"
  unfolding build_dict_def
  using build_prefix_distinct[of cols row "length cols"] by simp

lemma build_prefix_map_of:
  assumes "length cols \<le> length row"
  shows "n \<le> length cols \<Longrightarrow>
    map_of (foldl (\<lambda>d i. dict_set (cols ! i) (row ! i) d) [] [0..<n])
      = map_of (rev (take n (zip cols row)))"
proof (induction n)
  case 0
  show ?case by simp
next
  case (Suc n)
  from Suc.prems have n: "n < length cols" by simp
  have "take (Suc n) (zip cols row) = take n (zip cols row) @ [(cols ! n, row ! n)]"
    using n assms by (simp add: take_Suc_conv_app_nth)
  with Suc n show ?case
    by (simp add: map_of_dict_set)
qed

lemma build_dict_map_of:
  "length cols \<le> length row \<Longrightarrow> map_of (build_dict cols row) = map_of (rev (zip cols row))"
  unfolding build_dict_def
  using build_prefix_map_of[of cols row "length cols"] by simp

lemma rows_to_dicts_ok:
  "\<forall>row\<in>set rows. length cols \<le> length row \<Longrightarrow>
   rows_to_dicts cols rows = Inr (map (build_dict cols) rows)"
  by (induction rows) (auto simp: row_to_dict_def)

text \<open>
  Claim C7. On the read path, with the rows and the column names the cursor
  delivers (each row at least as long as the list of names, as a cursor's rows
  are), the result holds one mapping per fetched row, in row order and however
  many rows there are. Each mapping sends a column name to that row's value in
  that column (the last such column if a name is repeated); when the names are
  distinct the mapping is exactly the names paired with the row's values in column
  order.
\<close>

theorem read_path_rows:
  assumes "db_execute be (db ss) sql = (Inr res, s1)"
    and "is_select u sql"
    and "fetchall res = Inr rows"
    and "cur_keys res = Inr cols"
    and "\<forall>row\<in>set rows. length cols \<le> length row"
  shows "\<exists>ds. fst (run_statement u be ss sql) = Inr (Rows ds)
     \<and> length ds = length rows
     \<and> ds = map (build_dict cols) rows
     \<and> (\<forall>row\<in>set rows. map_of (build_dict cols row) = map_of (rev (zip cols row)))
     \<and> (distinct cols \<longrightarrow> ds = map (zip cols) rows)"
proof -
  have "fst (run_statement u be ss sql) = Inr (Rows (map (build_dict cols) rows))"
    using assms by (simp add: run_statement_read rows_to_dicts_ok)
  moreover have "\<forall>row\<in>set rows. map_of (build_dict cols row) = map_of (rev (zip cols row))"
    using assms(5) by (simp add: build_dict_map_of)
  moreover have "distinct cols \<longrightarrow> map (build_dict cols) rows = map (zip cols) rows"
    using assms(5) by (simp add: build_dict_distinct)
  ultimately show ?thesis by simp
qed

theorem read_path_rows_witness:
  "db_execute sample_backend (db fresh_session) sql_default
     = (Inr \<lparr>fetchall = Inr customer_rows, cur_keys = Inr customer_columns, rowcount = - 1\<rparr>, 0)
   \<and> is_select sample_ucd sql_default
   \<and> list_all (\<lambda>row. length customer_columns \<le> length row) customer_rows
   \<and> distinct customer_columns
   \<and> length customer_rows = 4
   \<and> fst (run_statement sample_ucd sample_backend fresh_session sql_default)
       = Inr (Rows (map (zip customer_columns) customer_rows))"
proof -
  have r: "db_execute sample_backend (db fresh_session) sql_default
     = (Inr \<lparr>fetchall = Inr customer_rows, cur_keys = Inr customer_columns, rowcount = - 1\<rparr>, 0)"
    by code_simp
  have s: "is_select sample_ucd sql_default" by code_simp
  have la: "list_all (\<lambda>row. length customer_columns \<le> length row) customer_rows"
    by code_simp
  then have l: "\<forall>row\<in>set customer_rows. length customer_columns \<le> length row"
    by (simp add: list_all_iff)
  have d: "distinct customer_columns" by code_simp
  have n: "length customer_rows = 4" by code_simp
  have f: "fetchall \<lparr>fetchall = Inr customer_rows, cur_keys = Inr customer_columns,
      rowcount = - 1\<rparr> = Inr customer_rows" by simp
  have k: "cur_keys \<lparr>fetchall = Inr customer_rows, cur_keys = Inr customer_columns,
      rowcount = - 1\<rparr> = Inr customer_columns" by simp
  from read_path_rows[OF r s f k l] obtain ds where
    a: "fst (run_statement sample_ucd sample_backend fresh_session sql_default) = Inr (Rows ds)"
    and b: "distinct customer_columns \<longrightarrow> ds = map (zip customer_columns) customer_rows"
    by (elim exE conjE)
  from b d have e: "ds = map (zip customer_columns) customer_rows" by (rule mp)
  have res: "fst (run_statement sample_ucd sample_backend fresh_session sql_default)
       = Inr (Rows (map (zip customer_columns) customer_rows))"
    using a unfolding e .
  show ?thesis
    by (intro conjI) (rule r s la d n res)+
qed

text \<open>
  Claim C10. Every statement \<open>generate_sql\<close> can produce begins, after trimming,
  with the keyword \<open>SELECT\<close>. Hence \<open>execute_query_endpoint\<close> never reaches the
  write branch: for every question and backend the only session call it issues is
  the execution of the generated statement, and no commit.
\<close>

theorem generated_statements_never_commit:
  "startswith (strip u (generate_sql u question)) (str ''SELECT'')
   \<and> is_select u (generate_sql u question)
   \<and> calls (snd (execute_query_endpoint u be ss question))
       = calls ss @ [Execute (generate_sql u question)]
   \<and> Commit \<notin> set (drop (length (calls ss))
         (calls (snd (execute_query_endpoint u be ss question))))"
proof -
  have sel: "startswith (strip u (generate_sql u question)) (str ''SELECT'')
      \<and> is_select u (generate_sql u question)"
    using template_select[OF generate_sql_in_templates] .
  have "calls (snd (run_statement u be ss (generate_sql u question)))
       = calls ss @ [Execute (generate_sql u question)]"
  proof (cases "db_execute be (db ss) (generate_sql u question)")
    case (Pair r s1)
    then show ?thesis
      using sel by (cases r) (simp_all add: run_statement_execute_fails run_statement_read)
  qed
  then have "calls (snd (execute_query_endpoint u be ss question))
       = calls ss @ [Execute (generate_sql u question)]"
    by (simp add: endpoint_session)
  with sel show ?thesis by simp
qed

section \<open>Properties of the schema introspection\<close>












end
